theory Spec2Isabelle
  imports Main "HOL-Library.Word"
begin

section \<open>JavaScript strings\<close>

text \<open>
  A JavaScript string is a sequence of 16-bit code units; \<open>length\<close> counts code units.
  \<open>lit\<close> embeds an ASCII literal of the source.
\<close>

type_synonym jsstring = "16 word list"

definition lit :: "string \<Rightarrow> jsstring" where
  "lit s = map of_char s"

text \<open>
  The code units matched by the regular-expression class \<open>\s\<close> and removed by
  \<open>String.prototype.trim\<close> (ECMAScript WhiteSpace and LineTerminator).
\<close>

definition isWhiteSpace :: "16 word \<Rightarrow> bool" where
  "isWhiteSpace c \<longleftrightarrow>
     c \<in> set [0x0009, 0x000A, 0x000B, 0x000C, 0x000D, 0x0020, 0x00A0, 0x1680,
              0x2028, 0x2029, 0x202F, 0x205F, 0x3000, 0xFEFF]
     \<or> (0x2000 \<le> c \<and> c \<le> 0x200A)"

text \<open>The class \<open>[.!?]\<close>.\<close>

definition isTerminator :: "16 word \<Rightarrow> bool" where
  "isTerminator c \<longleftrightarrow> c = 0x2E \<or> c = 0x21 \<or> c = 0x3F"

text \<open>The class \<open>[<>]\<close>.\<close>

definition isDelimiter :: "16 word \<Rightarrow> bool" where
  "isDelimiter c \<longleftrightarrow> c = 0x3C \<or> c = 0x3E"

definition trim :: "jsstring \<Rightarrow> jsstring" where
  "trim s = rev (dropWhile isWhiteSpace (rev (dropWhile isWhiteSpace s)))"

text \<open>
  \<open>s.split(/[sep]+/)\<close>: the scan of \<open>String.prototype.split\<close> with a separator that matches
  a maximal run of \<open>sep\<close> code units. \<open>cur\<close> holds, reversed, the piece read since the last
  separator. A piece is emitted at each run and at the end of the string, so a string that
  starts or ends with a separator yields an empty first or last piece, and the empty
  string yields one empty piece.
\<close>

function split_from :: "(16 word \<Rightarrow> bool) \<Rightarrow> jsstring \<Rightarrow> jsstring \<Rightarrow> jsstring list" where
  "split_from sep cur [] = [rev cur]"
| "split_from sep cur (c # cs) =
     (if sep c then rev cur # split_from sep [] (dropWhile sep cs)
      else split_from sep (c # cur) cs)"
  by pat_completeness auto
termination
  by (relation "measure (\<lambda>(sep, cur, s). length s)")
     (auto simp: length_dropWhile_le le_imp_less_Suc)

definition split_runs :: "(16 word \<Rightarrow> bool) \<Rightarrow> jsstring \<Rightarrow> jsstring list" where
  "split_runs sep s = split_from sep [] s"

text \<open>\<open>.filter(Boolean)\<close> on an array of strings keeps the non-empty ones.\<close>

definition filter_Boolean :: "jsstring list \<Rightarrow> jsstring list" where
  "filter_Boolean xs = filter (\<lambda>t. t \<noteq> []) xs"

text \<open>\<open>s.replace(/[<>]/g, "")\<close>.\<close>

definition remove_delimiters :: "jsstring \<Rightarrow> jsstring" where
  "remove_delimiters s = filter (\<lambda>c. \<not> isDelimiter c) s"

section \<open>Derived text statistics\<close>

record TextStatistics =
  words :: nat
  characters :: nat
  sentences :: nat

text \<open>The \<open>stats\<close> memo of the component; a non-empty string is truthy.\<close>

definition stats :: "jsstring \<Rightarrow> TextStatistics" where
  "stats plain =
     \<lparr> words =
         (if trim plain \<noteq> []
          then length (filter_Boolean (split_runs isWhiteSpace (trim plain)))
          else 0),
       characters = length plain,
       sentences =
         (if plain \<noteq> []
          then length (filter_Boolean (split_runs isTerminator plain))
          else 0) \<rparr>"

text \<open>
  The specification's reading of "split on runs of separators, count the non-empty
  pieces": the maximal runs of non-separator code units, taken from left to right.
\<close>

function tokens :: "(16 word \<Rightarrow> bool) \<Rightarrow> jsstring \<Rightarrow> jsstring list" where
  "tokens sep s =
     (case dropWhile sep s of
        [] \<Rightarrow> []
      | c # r \<Rightarrow> (c # takeWhile (\<lambda>x. \<not> sep x) r) # tokens sep (dropWhile (\<lambda>x. \<not> sep x) r))"
  by pat_completeness auto
termination
proof (relation "measure (\<lambda>(sep, s). length s)", goal_cases)
  case 1
  show ?case by simp
next
  case (2 sep s c r)
  have "length (dropWhile (\<lambda>x. \<not> sep x) r) \<le> length r"
    by (rule length_dropWhile_le)
  moreover have "length (dropWhile sep s) \<le> length s"
    by (rule length_dropWhile_le)
  ultimately show ?case using 2 by simp
qed

section \<open>Formatting command registry\<close>

datatype Command =
    bold | italic | underline | strikeThrough
  | insertOrderedList | insertUnorderedList
  | justifyLeft | justifyCenter | justifyRight | justifyFull
  | removeFormat | formatBlock

text \<open>In the source a command is the string naming it; the host receives that string.\<close>

fun command_name :: "Command \<Rightarrow> jsstring" where
  "command_name bold = lit ''bold''"
| "command_name italic = lit ''italic''"
| "command_name underline = lit ''underline''"
| "command_name strikeThrough = lit ''strikeThrough''"
| "command_name insertOrderedList = lit ''insertOrderedList''"
| "command_name insertUnorderedList = lit ''insertUnorderedList''"
| "command_name justifyLeft = lit ''justifyLeft''"
| "command_name justifyCenter = lit ''justifyCenter''"
| "command_name justifyRight = lit ''justifyRight''"
| "command_name justifyFull = lit ''justifyFull''"
| "command_name removeFormat = lit ''removeFormat''"
| "command_name formatBlock = lit ''formatBlock''"

datatype ColorCommand = foreColor | backColor

fun color_command_name :: "ColorCommand \<Rightarrow> jsstring" where
  "color_command_name foreColor = lit ''foreColor''"
| "color_command_name backColor = lit ''backColor''"

text \<open>
  A toolbar button: its command and its optional fixed value. The label and the tooltip
  are display text and take no part in any operation.
\<close>

record ToolbarButton =
  command :: Command
  btn_value :: "jsstring option"

definition inlineButtons :: "ToolbarButton list" where
  "inlineButtons =
     [\<lparr>command = bold, btn_value = None\<rparr>,
      \<lparr>command = italic, btn_value = None\<rparr>,
      \<lparr>command = underline, btn_value = None\<rparr>,
      \<lparr>command = strikeThrough, btn_value = None\<rparr>]"

definition listButtons :: "ToolbarButton list" where
  "listButtons =
     [\<lparr>command = insertOrderedList, btn_value = None\<rparr>,
      \<lparr>command = insertUnorderedList, btn_value = None\<rparr>]"

definition alignmentButtons :: "ToolbarButton list" where
  "alignmentButtons =
     [\<lparr>command = justifyLeft, btn_value = None\<rparr>,
      \<lparr>command = justifyCenter, btn_value = None\<rparr>,
      \<lparr>command = justifyRight, btn_value = None\<rparr>,
      \<lparr>command = justifyFull, btn_value = None\<rparr>]"

text \<open>The starter markup; the heading ends with U+2728.\<close>

definition DEFAULT_MARKUP :: jsstring where
  "DEFAULT_MARKUP =
     lit ''<h2>Tell your story '' @ [0x2728] @ lit ''</h2><p>Highlight a sentence to format it or pick a color to make it pop. Everything you write appears instantly in the live preview.</p>''"

section \<open>The host page\<close>

text \<open>
  The browser's editing engine and DOM are external to the component. The state of the
  page is an opaque value of type \<open>'h\<close>; the operations the component calls on it are the
  fields of a record. A query that throws returns \<open>Inl\<close>. \<open>toLowerCase\<close> is the runtime's
  \<open>String.prototype.toLowerCase\<close>, whose case tables are not part of the repository.
\<close>

datatype exn = HostError

type_synonym node = nat

record Selection =
  anchorNode :: "node option"

record 'h host_ops =
  focus :: "'h \<Rightarrow> 'h"
  execCommand :: "jsstring \<Rightarrow> jsstring option \<Rightarrow> 'h \<Rightarrow> 'h"
  set_innerHTML :: "jsstring \<Rightarrow> 'h \<Rightarrow> 'h"
  get_innerHTML :: "'h \<Rightarrow> jsstring"
  get_innerText :: "'h \<Rightarrow> jsstring"
  getSelection :: "'h \<Rightarrow> Selection option"
  contains :: "'h \<Rightarrow> node \<Rightarrow> bool"
  queryCommandState :: "jsstring \<Rightarrow> 'h \<Rightarrow> exn + bool"
  queryCommandValue :: "jsstring \<Rightarrow> 'h \<Rightarrow> exn + jsstring"
  toLowerCase :: "jsstring \<Rightarrow> jsstring"

text \<open>The calls by which the component changes the page, in the order made.\<close>

datatype host_effect =
    Focus
  | ExecCommand jsstring "jsstring option"
  | SetInnerHTML jsstring

section \<open>Component state\<close>

text \<open>
  The React state of \<open>Home\<close>, whether \<open>editorRef.current\<close> is set (\<open>mounted\<close>), the page,
  and the log of the calls made on it.
\<close>

record 'h state =
  html :: jsstring
  plain :: jsstring
  activeCommands :: "jsstring \<rightharpoonup> bool"
  blockType :: jsstring
  foreground :: jsstring
  background :: jsstring
  mounted :: bool
  host :: 'h
  invoked :: "host_effect list"

text \<open>A toolbar button is highlighted when \<open>activeCommands[button.command]\<close> is truthy.\<close>

definition isActive :: "'h state \<Rightarrow> Command \<Rightarrow> bool" where
  "isActive s c \<longleftrightarrow> activeCommands s (command_name c) = Some True"

definition call_focus :: "'h host_ops \<Rightarrow> 'h state \<Rightarrow> 'h state" where
  "call_focus H s = s\<lparr>host := focus H (host s), invoked := invoked s @ [Focus]\<rparr>"

definition call_execCommand ::
    "'h host_ops \<Rightarrow> jsstring \<Rightarrow> jsstring option \<Rightarrow> 'h state \<Rightarrow> 'h state" where
  "call_execCommand H name v s =
     s\<lparr>host := execCommand H name v (host s), invoked := invoked s @ [ExecCommand name v]\<rparr>"

definition assign_innerHTML :: "'h host_ops \<Rightarrow> jsstring \<Rightarrow> 'h state \<Rightarrow> 'h state" where
  "assign_innerHTML H m s =
     s\<lparr>host := set_innerHTML H m (host s), invoked := invoked s @ [SetInnerHTML m]\<rparr>"

definition updateStateFromEditor :: "'h host_ops \<Rightarrow> 'h state \<Rightarrow> 'h state" where
  "updateStateFromEditor H s =
     (if \<not> mounted s then s
      else s\<lparr>html := get_innerHTML H (host s), plain := get_innerText H (host s)\<rparr>)"

definition exec :: "'h host_ops \<Rightarrow> Command \<Rightarrow> jsstring option \<Rightarrow> 'h state \<Rightarrow> 'h state" where
  "exec H cmd v s =
     (if \<not> mounted s then s
      else
        let s1 = call_focus H s;
            s2 = (if cmd = formatBlock
                  then call_execCommand H (command_name cmd)
                         (Some (case v of None \<Rightarrow> lit ''p'' | Some x \<Rightarrow> x)) s1
                  else call_execCommand H (command_name cmd) v s1)
        in updateStateFromEditor H s2)"

definition handleInput :: "'h host_ops \<Rightarrow> 'h state \<Rightarrow> 'h state" where
  "handleInput H s = updateStateFromEditor H s"

definition handleColorPick ::
    "'h host_ops \<Rightarrow> ColorCommand \<Rightarrow> jsstring \<Rightarrow> 'h state \<Rightarrow> 'h state" where
  "handleColorPick H cmd color s =
     (if \<not> mounted s then s
      else
        let s1 = call_focus H s;
            s2 = call_execCommand H (color_command_name cmd) (Some color) s1;
            s3 = updateStateFromEditor H s2
        in if cmd = foreColor then s3\<lparr>foreground := color\<rparr>
           else s3\<lparr>background := color\<rparr>)"

definition reset :: "'h host_ops \<Rightarrow> 'h state \<Rightarrow> 'h state" where
  "reset H s =
     (if \<not> mounted s then s
      else
        let s1 = assign_innerHTML H DEFAULT_MARKUP s;
            s2 = updateStateFromEditor H s1
        in s2\<lparr>foreground := lit ''#1f2933'',
              background := lit ''#ffffff'',
              activeCommands := Map.empty,
              blockType := lit ''p''\<rparr>)"

subsection \<open>The selection-change handler\<close>

text \<open>
  Statements that may throw have type \<open>exn + 'a\<close>. \<open>and_then\<close> sequences two of them;
  \<open>try_catch body handler\<close> is \<open>try { body } catch { handler }\<close>, whose handler does
  not look at the exception.
\<close>

definition and_then :: "exn + 'a \<Rightarrow> ('a \<Rightarrow> exn + 'b) \<Rightarrow> exn + 'b" where
  "and_then m f = (case m of Inl e \<Rightarrow> Inl e | Inr x \<Rightarrow> f x)"

definition try_catch :: "exn + 'a \<Rightarrow> (exn + 'a) \<Rightarrow> exn + 'a" where
  "try_catch body handler = (case body of Inl e \<Rightarrow> handler | Inr x \<Rightarrow> Inr x)"

text \<open>The body of the \<open>forEach\<close> callback, for one button.\<close>

definition query_button ::
    "'h host_ops \<Rightarrow> 'h \<Rightarrow> (jsstring \<rightharpoonup> bool) \<Rightarrow> ToolbarButton \<Rightarrow> exn + (jsstring \<rightharpoonup> bool)" where
  "query_button H h nextState btn =
     try_catch
       (and_then (queryCommandState H (command_name (command btn)) h)
          (\<lambda>b. Inr (nextState(command_name (command btn) \<mapsto> b))))
       (Inr (nextState(command_name (command btn) \<mapsto> False)))"

fun forEach_button ::
    "'h host_ops \<Rightarrow> 'h \<Rightarrow> ToolbarButton list \<Rightarrow> (jsstring \<rightharpoonup> bool) \<Rightarrow> exn + (jsstring \<rightharpoonup> bool)" where
  "forEach_button H h [] nextState = Inr nextState"
| "forEach_button H h (btn # btns) nextState =
     and_then (query_button H h nextState btn) (forEach_button H h btns)"

text \<open>The block query and its normalisation, up to the closing brace of the \<open>catch\<close>.\<close>

definition query_block :: "'h host_ops \<Rightarrow> 'h \<Rightarrow> exn + jsstring" where
  "query_block H h =
     try_catch
       (and_then (queryCommandValue H (lit ''formatBlock'') h)
          (\<lambda>queried.
             Inr (if queried \<noteq> []
                  then toLowerCase H (remove_delimiters queried)
                  else lit ''p'')))
       (Inr (lit ''p''))"

definition handleSelection :: "'h host_ops \<Rightarrow> 'h state \<Rightarrow> exn + 'h state" where
  "handleSelection H s =
     (let selection = getSelection H (host s)
      in if \<not> mounted s \<or> selection = None
         then Inr (s\<lparr>activeCommands := Map.empty\<rparr>)
         else
           let withinEditor =
                 (case selection of
                    None \<Rightarrow> False
                  | Some sel \<Rightarrow>
                      (case anchorNode sel of
                         None \<Rightarrow> False
                       | Some n \<Rightarrow> contains H (host s) n))
           in if \<not> withinEditor then Inr (s\<lparr>activeCommands := Map.empty\<rparr>)
              else
                and_then
                  (forEach_button H (host s)
                     (inlineButtons @ listButtons @ alignmentButtons) Map.empty)
                  (\<lambda>nextState.
                     and_then (query_block H (host s))
                       (\<lambda>queried_block.
                          let currentBlock =
                                (if queried_block = lit ''body'' then lit ''p''
                                 else queried_block)
                          in Inr (s\<lparr>activeCommands := nextState,
                                    blockType := currentBlock\<rparr>))))"

section \<open>A headless host\<close>

text \<open>
  A small concrete page, for running the component: the markup of the surface, the focus
  flag, the selection, the nodes of the surface's subtree, and what the engine answers to
  the block query and to each state query (a command not listed is inactive).
\<close>

record page =
  page_markup :: jsstring
  page_focused :: bool
  page_selection :: "Selection option"
  page_editor_nodes :: "node list"
  page_block :: "exn + jsstring"
  page_toggles :: "(jsstring \<times> (exn + bool)) list"

text \<open>The text outside tags.\<close>

fun visible_text :: "bool \<Rightarrow> jsstring \<Rightarrow> jsstring" where
  "visible_text in_tag [] = []"
| "visible_text in_tag (c # cs) =
     (if c = 0x3C then visible_text True cs
      else if c = 0x3E then visible_text False cs
      else if in_tag then visible_text in_tag cs
      else c # visible_text in_tag cs)"

definition ascii_lower :: "16 word \<Rightarrow> 16 word" where
  "ascii_lower c = (if 0x41 \<le> c \<and> c \<le> 0x5A then c + 0x20 else c)"

definition headless :: "page host_ops" where
  "headless =
     \<lparr> focus = (\<lambda>p. p\<lparr>page_focused := True\<rparr>),
       execCommand = (\<lambda>name v p.
         p\<lparr>page_markup := page_markup p @ lit ''<!--'' @ name @ lit ''-->''\<rparr>),
       set_innerHTML = (\<lambda>m p. p\<lparr>page_markup := m\<rparr>),
       get_innerHTML = page_markup,
       get_innerText = (\<lambda>p. visible_text False (page_markup p)),
       getSelection = page_selection,
       contains = (\<lambda>p n. n \<in> set (page_editor_nodes p)),
       queryCommandState = (\<lambda>name p.
         case map_of (page_toggles p) name of None \<Rightarrow> Inr False | Some r \<Rightarrow> r),
       queryCommandValue = (\<lambda>name p. page_block p),
       toLowerCase = map ascii_lower \<rparr>"

text \<open>
  A page whose caret (node 1) is inside the surface (nodes 0 to 2), in a level-1 heading,
  with bold active and the italic query failing.
\<close>

definition page_in_heading :: page where
  "page_in_heading =
     \<lparr> page_markup = lit ''<h1>Title</h1>'',
       page_focused = False,
       page_selection = Some \<lparr>anchorNode = Some 1\<rparr>,
       page_editor_nodes = [0, 1, 2],
       page_block = Inr (lit ''h1''),
       page_toggles = [(lit ''bold'', Inr True), (lit ''italic'', Inl HostError)] \<rparr>"

text \<open>The same page with the caret moved to node 7, outside the surface.\<close>

definition page_outside :: page where
  "page_outside = page_in_heading\<lparr>page_selection := Some \<lparr>anchorNode = Some 7\<rparr>\<rparr>"

text \<open>The same page with other answers to the block query.\<close>

definition page_in_body :: page where
  "page_in_body = page_in_heading\<lparr>page_block := Inr (lit ''<BODY>'')\<rparr>"

definition page_failing :: page where
  "page_failing = page_in_heading\<lparr>page_block := Inl HostError\<rparr>"

definition page_no_block :: page where
  "page_no_block = page_in_heading\<lparr>page_block := Inr []\<rparr>"

definition page_odd_block :: page where
  "page_odd_block = page_in_heading\<lparr>page_block := Inr (lit ''a<b'')\<rparr>"

text \<open>A component state after some editing: custom colours, a heading selected.\<close>

definition edited :: "page \<Rightarrow> bool \<Rightarrow> page state" where
  "edited p m =
     \<lparr> html = lit ''<h1>Title</h1>'',
       plain = lit ''Title'',
       activeCommands = [lit ''bold'' \<mapsto> True],
       blockType = lit ''h1'',
       foreground = lit ''#ff0000'',
       background = lit ''#00ff00'',
       mounted = m,
       host = p,
       invoked = [] \<rparr>"

section \<open>Notions of the specification\<close>

text \<open>
  The three cases in which the specification has the observer emit the default snapshot:
  no surface mounted, no selection, or an anchor (possibly absent) that the surface does
  not contain.
\<close>

definition outside_surface :: "'h host_ops \<Rightarrow> 'h state \<Rightarrow> bool" where
  "outside_surface H s \<longleftrightarrow>
     \<not> mounted s
     \<or> (case getSelection H (host s) of
           None \<Rightarrow> True
         | Some selection \<Rightarrow>
             (case anchorNode selection of
                None \<Rightarrow> True
              | Some n \<Rightarrow> \<not> contains H (host s) n))"

text \<open>
  The specification's normalisation of a reported block format, in its words: the
  surrounding delimiters (a leading \<open><\<close>, a trailing \<open>>\<close>) stripped, lowercased, and
  the root container mapped to the paragraph tag.
\<close>

definition strip_surrounding :: "jsstring \<Rightarrow> jsstring" where
  "strip_surrounding s =
     (let s1 = (case s of [] \<Rightarrow> [] | c # cs \<Rightarrow> if c = 0x3C then cs else s)
      in if s1 \<noteq> [] \<and> last s1 = 0x3E then butlast s1 else s1)"

definition spec_blockType :: "(jsstring \<Rightarrow> jsstring) \<Rightarrow> jsstring \<Rightarrow> jsstring" where
  "spec_blockType lower reported =
     (let v = lower (strip_surrounding reported)
      in if v = lit ''body'' then lit ''p'' else v)"

text \<open>
  The contract of the surface that \<open>reset\<close> relies on. Reading the markup back after
  assigning the starter markup returns it unchanged; and assigning markup replaces the
  whole content, so that the text read afterwards depends on the assigned markup only.
\<close>

definition starter_round_trip :: "'h host_ops \<Rightarrow> bool" where
  "starter_round_trip H \<longleftrightarrow>
     (\<forall>h. get_innerHTML H (set_innerHTML H DEFAULT_MARKUP h) = DEFAULT_MARKUP)"

definition content_replaced :: "'h host_ops \<Rightarrow> bool" where
  "content_replaced H \<longleftrightarrow>
     (\<forall>m h h'. get_innerText H (set_innerHTML H m h) = get_innerText H (set_innerHTML H m h'))"

section \<open>Text statistics\<close>

declare tokens.simps [simp del]

lemma tokens_Nil: "tokens sep [] = []"
  by (simp add: tokens.simps [of sep "[]"])

lemma tokens_sep_Cons: "sep c \<Longrightarrow> tokens sep (c # cs) = tokens sep cs"
  by (simp add: tokens.simps [of sep "c # cs"] tokens.simps [of sep cs])

lemma tokens_text_Cons:
  "\<not> sep c \<Longrightarrow> tokens sep (c # cs) =
     (c # takeWhile (\<lambda>x. \<not> sep x) cs) # tokens sep (dropWhile (\<lambda>x. \<not> sep x) cs)"
  by (simp add: tokens.simps [of sep "c # cs"])

lemma tokens_dropWhile: "tokens sep (dropWhile sep s) = tokens sep s"
  by (induction s) (simp_all add: tokens_sep_Cons)

lemma tokens_head:
  "tokens sep s =
     (case takeWhile (\<lambda>x. \<not> sep x) s of [] \<Rightarrow> [] | t \<Rightarrow> [t])
       @ tokens sep (dropWhile (\<lambda>x. \<not> sep x) s)"
proof (cases s)
  case Nil
  then show ?thesis by (simp add: tokens_Nil)
next
  case (Cons c cs)
  then show ?thesis by (cases "sep c") (simp_all add: tokens_text_Cons)
qed

text \<open>
  The pieces that survive \<open>filter(Boolean)\<close>, with \<open>cur\<close> the piece under way: that piece
  up to the next separator, if it is not empty, and then the tokens of the rest.
\<close>

lemma filter_split_from:
  "filter_Boolean (split_from sep cur s) =
     (case rev cur @ takeWhile (\<lambda>x. \<not> sep x) s of [] \<Rightarrow> [] | t \<Rightarrow> [t])
       @ tokens sep (dropWhile (\<lambda>x. \<not> sep x) s)"
proof (induction sep cur s rule: split_from.induct)
  case (1 sep cur)
  show ?case by (simp add: filter_Boolean_def tokens_Nil split: list.splits)
next
  case (2 sep cur c cs)
  show ?case
  proof (cases "sep c")
    case False
    with 2 show ?thesis by simp
  next
    case True
    let ?d = "dropWhile sep cs"
    have "filter_Boolean (split_from sep [] ?d) =
        (case takeWhile (\<lambda>x. \<not> sep x) ?d of [] \<Rightarrow> [] | t \<Rightarrow> [t])
          @ tokens sep (dropWhile (\<lambda>x. \<not> sep x) ?d)"
      using 2(1) [OF True] by simp
    also have "\<dots> = tokens sep ?d"
      by (rule tokens_head [symmetric])
    also have "\<dots> = tokens sep (c # cs)"
      using True by (simp only: tokens_dropWhile tokens_sep_Cons)
    finally have rest: "filter_Boolean (split_from sep [] ?d) = tokens sep (c # cs)" .
    have "filter_Boolean (split_from sep cur (c # cs)) =
        (case rev cur of [] \<Rightarrow> [] | t \<Rightarrow> [t]) @ filter_Boolean (split_from sep [] ?d)"
      using True by (simp add: filter_Boolean_def split: list.splits)
    then show ?thesis using True rest by simp
  qed
qed

lemma filter_split_runs: "filter_Boolean (split_runs sep s) = tokens sep s"
  using filter_split_from [of sep "[]" s] tokens_head [of sep s]
  by (simp add: split_runs_def)

lemma split_from_first_nonempty:
  "cur \<noteq> [] \<Longrightarrow> filter_Boolean (split_from sep cur s) \<noteq> []"
  by (induction sep cur s rule: split_from.induct) (auto simp: filter_Boolean_def)

lemma trim_starts_with_text:
  assumes "trim s \<noteq> []"
  shows "\<exists>c cs. trim s = c # cs \<and> \<not> isWhiteSpace c"
proof -
  define u where "u = dropWhile isWhiteSpace s"
  have t: "trim s = rev (dropWhile isWhiteSpace (rev u))"
    by (simp add: trim_def u_def)
  with assms have "u \<noteq> []" by auto
  then obtain c cs where u: "u = c # cs" by (cases u) auto
  have c: "\<not> isWhiteSpace c"
    using hd_dropWhile [of isWhiteSpace s] u unfolding u_def
    by (metis list.sel(1) list.distinct(1))
  have "rev u = takeWhile isWhiteSpace (rev u) @ dropWhile isWhiteSpace (rev u)" by simp
  then have "u = rev (dropWhile isWhiteSpace (rev u)) @ rev (takeWhile isWhiteSpace (rev u))"
    by (metis rev_append rev_rev_ident)
  with t have "u = trim s @ rev (takeWhile isWhiteSpace (rev u))" by simp
  with assms u obtain cs' where "trim s = c # cs'"
    by (cases "trim s") auto
  with c show ?thesis by blast
qed

lemma words_pos:
  assumes "trim s \<noteq> []"
  shows "filter_Boolean (split_runs isWhiteSpace (trim s)) \<noteq> []"
proof -
  from trim_starts_with_text [OF assms] obtain c cs
    where t: "trim s = c # cs" and c: "\<not> isWhiteSpace c" by blast
  show ?thesis
    unfolding split_runs_def t using c
    by (simp add: split_from_first_nonempty)
qed

text \<open>
  C3. For every plain text \<open>t\<close>: the word count is 0 exactly when the trimmed text is
  empty; it is the number of non-empty tokens of the trimmed text split on runs of
  whitespace (the count the code takes, and equally the number of maximal runs of
  non-whitespace); and the character count is the length of the untrimmed text.
\<close>

theorem words_characters:
  "(words (stats t) = 0 \<longleftrightarrow> trim t = [])
   \<and> words (stats t) = length (filter_Boolean (split_runs isWhiteSpace (trim t)))
   \<and> words (stats t) = length (tokens isWhiteSpace (trim t))
   \<and> characters (stats t) = length t"
proof -
  have "trim t \<noteq> [] \<Longrightarrow> length (filter_Boolean (split_runs isWhiteSpace (trim t))) \<noteq> 0"
    using words_pos [of t] by simp
  then show ?thesis
    by (auto simp: stats_def filter_split_runs tokens_Nil)
qed

theorem words_characters_witness:
  "words (stats (lit '' two  words '')) = 2
   \<and> trim (lit '' two  words '') \<noteq> []
   \<and> words (stats (lit '' '')) = 0 \<and> trim (lit '' '') = []
   \<and> characters (stats (lit '' two  words '')) = 12"
  using words_characters [of "lit '' two  words ''"] words_characters [of "lit '' ''"]
  by (simp add: stats_def lit_def split_runs_def filter_Boolean_def isWhiteSpace_def trim_def)

text \<open>
  C4. For every plain text, the sentence count is the number of non-empty pieces of the
  text split on runs of \<open>.\<close>, \<open>!\<close>, \<open>?\<close>, and 0 for the empty text; the four examples
  of the specification evaluate to 0, 1, 3 and 1.
\<close>

theorem sentences_count:
  "sentences (stats t) = length (tokens isTerminator t)
   \<and> sentences (stats []) = 0
   \<and> sentences (stats (lit ''Hello.'')) = 1
   \<and> sentences (stats (lit ''Hi! Bye? Ok.'')) = 3
   \<and> sentences (stats (lit ''no punctuation'')) = 1"
proof -
  have 1: "sentences (stats t) = length (tokens isTerminator t)"
    by (simp add: stats_def filter_split_runs tokens_Nil)
  have 2: "sentences (stats []) = 0"
    by (simp add: stats_def)
  have 3: "sentences (stats (lit ''Hello.'')) = 1"
    by (simp add: stats_def lit_def split_runs_def filter_Boolean_def isTerminator_def)
  have 4: "sentences (stats (lit ''Hi! Bye? Ok.'')) = 3"
    by (simp add: stats_def lit_def split_runs_def filter_Boolean_def isTerminator_def)
  have 5: "sentences (stats (lit ''no punctuation'')) = 1"
    by (simp add: stats_def lit_def split_runs_def filter_Boolean_def isTerminator_def)
  from 1 2 3 4 5 show ?thesis by blast
qed

text \<open>
  C10. Word count and sentence count are not ordered: on \<open>"..."\<close> there is one word
  and no sentence, on \<open>" "\<close> no word and one sentence.
\<close>

theorem words_sentences_unordered:
  "words (stats (lit ''...'')) = 1 \<and> sentences (stats (lit ''...'')) = 0
   \<and> words (stats (lit '' '')) = 0 \<and> sentences (stats (lit '' '')) = 1"
  by (simp add: stats_def lit_def split_runs_def filter_Boolean_def isTerminator_def
        isWhiteSpace_def trim_def)

section \<open>The selection-change handler\<close>


lemma and_then_Inr: "and_then (Inr x) f = f x"
  by (simp add: and_then_def)

lemma query_button_Inr:
  "query_button H h ns btn =
     Inr (ns(command_name (command btn) \<mapsto>
            (case queryCommandState H (command_name (command btn)) h of
               Inl e \<Rightarrow> False | Inr b \<Rightarrow> b)))"
  by (simp add: query_button_def try_catch_def and_then_def split: sum.splits)

lemma forEach_button_Inr:
  "forEach_button H h btns ns =
     Inr (fold (\<lambda>btn m. m(command_name (command btn) \<mapsto>
                 (case queryCommandState H (command_name (command btn)) h of
                    Inl e \<Rightarrow> False | Inr b \<Rightarrow> b))) btns ns)"
  by (induction btns arbitrary: ns) (simp_all add: query_button_Inr and_then_Inr)

lemma fold_update_lookup:
  "fold (\<lambda>x m. m(f x \<mapsto> r (f x))) xs ns k =
     (if k \<in> f ` set xs then Some (r k) else ns k)"
  by (induction xs arbitrary: ns) auto

lemma query_block_Inr:
  "query_block H h =
     Inr (case queryCommandValue H (lit ''formatBlock'') h of
            Inl e \<Rightarrow> lit ''p''
          | Inr queried \<Rightarrow>
              if queried \<noteq> [] then toLowerCase H (remove_delimiters queried) else lit ''p'')"
  by (simp add: query_block_def try_catch_def and_then_def split: sum.splits)

lemma handleSelection_outside:
  "outside_surface H s \<Longrightarrow> handleSelection H s = Inr (s\<lparr>activeCommands := Map.empty\<rparr>)"
  by (auto simp: outside_surface_def handleSelection_def split: option.splits)

lemma handleSelection_inside:
  assumes "mounted s" "getSelection H (host s) = Some sel" "anchorNode sel = Some n"
    "contains H (host s) n"
  shows "handleSelection H s =
     Inr (s\<lparr>activeCommands :=
             fold (\<lambda>btn m. m(command_name (command btn) \<mapsto>
                 (case queryCommandState H (command_name (command btn)) (host s) of
                    Inl e \<Rightarrow> False | Inr b \<Rightarrow> b)))
               (inlineButtons @ listButtons @ alignmentButtons) Map.empty,
            blockType :=
              (let b = (case queryCommandValue H (lit ''formatBlock'') (host s) of
                          Inl e \<Rightarrow> lit ''p''
                        | Inr queried \<Rightarrow>
                            if queried \<noteq> [] then toLowerCase H (remove_delimiters queried)
                            else lit ''p'')
               in if b = lit ''body'' then lit ''p'' else b)\<rparr>)"
  using assms
  by (simp add: handleSelection_def forEach_button_Inr query_block_Inr and_then_Inr Let_def)

lemma handleSelection_cases:
  "outside_surface H s \<or>
   (\<exists>sel n. mounted s \<and> getSelection H (host s) = Some sel \<and> anchorNode sel = Some n
      \<and> contains H (host s) n)"
  by (auto simp: outside_surface_def split: option.splits)

section \<open>Commands, colours and reset\<close>


text \<open>
  C5. For every state, applying the block-format command with no value gives the same
  resulting state, and the same calls on the host, as applying it with the paragraph tag
  \<open>"p"\<close>: on a mounted surface a focus request followed by
  \<open>execCommand("formatBlock", false, "p")\<close>, and nothing otherwise.
\<close>

theorem formatBlock_default:
  "exec H formatBlock None s = exec H formatBlock (Some (lit ''p'')) s
   \<and> invoked (exec H formatBlock None s) =
       (if mounted s
        then invoked s @ [Focus, ExecCommand (lit ''formatBlock'') (Some (lit ''p''))]
        else invoked s)"
  by (simp add: exec_def Let_def call_focus_def call_execCommand_def updateStateFromEditor_def)

text \<open>
  The headless host, on a mounted surface: both calls log the same two host calls.
\<close>

theorem formatBlock_default_witness:
  "exec headless formatBlock None (edited page_in_heading True) =
     exec headless formatBlock (Some (lit ''p'')) (edited page_in_heading True)
   \<and> invoked (exec headless formatBlock None (edited page_in_heading True)) =
       [Focus, ExecCommand (lit ''formatBlock'') (Some (lit ''p''))]"
proof -
  have m: "mounted (edited page_in_heading True)"
    and i: "invoked (edited page_in_heading True) = []"
    by (simp_all add: edited_def)
  note d = formatBlock_default [of headless "edited page_in_heading True"]
  from d have a: "exec headless formatBlock None (edited page_in_heading True) =
     exec headless formatBlock (Some (lit ''p'')) (edited page_in_heading True)"
    by (rule conjunct1)
  from d have "invoked (exec headless formatBlock None (edited page_in_heading True)) =
       (if mounted (edited page_in_heading True)
        then invoked (edited page_in_heading True)
               @ [Focus, ExecCommand (lit ''formatBlock'') (Some (lit ''p''))]
        else invoked (edited page_in_heading True))"
    by (rule conjunct2)
  then have b: "invoked (exec headless formatBlock None (edited page_in_heading True)) =
       [Focus, ExecCommand (lit ''formatBlock'') (Some (lit ''p''))]"
    by (simp only: m i if_True append_Nil)
  from a b show ?thesis by (rule conjI)
qed

text \<open>
  C8. When the surface is not mounted, applying a formatting command, picking a colour
  and reset each return the state they were given: markup, plain text, selection
  snapshot and colours keep their values, the page is untouched and no call on the host
  is logged; the statistics, derived from the plain text, are the same.
\<close>

theorem unmounted_noop:
  assumes "\<not> mounted s"
  shows "exec H cmd v s = s
    \<and> handleColorPick H cc color s = s
    \<and> reset H s = s
    \<and> stats (plain (exec H cmd v s)) = stats (plain s)
    \<and> stats (plain (handleColorPick H cc color s)) = stats (plain s)
    \<and> stats (plain (reset H s)) = stats (plain s)"
  using assms by (simp add: exec_def handleColorPick_def reset_def)

text \<open>
  The three operations on an unmounted surface, run on the headless host.
\<close>

theorem unmounted_noop_witness:
  "\<not> mounted (edited page_in_heading False)
   \<and> exec headless bold None (edited page_in_heading False) = edited page_in_heading False
   \<and> handleColorPick headless foreColor (lit ''#123456'') (edited page_in_heading False)
       = edited page_in_heading False
   \<and> reset headless (edited page_in_heading False) = edited page_in_heading False"
proof -
  have m: "\<not> mounted (edited page_in_heading False)"
    by (simp add: edited_def)
  from unmounted_noop [OF m, of headless bold None foreColor "lit ''#123456''"] m
  show ?thesis by simp
qed

text \<open>
  C9. The colour state is stable under every operation other than a colour pick and
  reset: applying any formatting command, input, and every selection-change event leave
  foreground and background as they were. A foreground pick leaves the background
  unchanged, and a background pick leaves the foreground unchanged.
\<close>

theorem color_state_stable:
  "foreground (exec H cmd v s) = foreground s \<and> background (exec H cmd v s) = background s
   \<and> foreground (handleInput H s) = foreground s \<and> background (handleInput H s) = background s
   \<and> (\<exists>s'. handleSelection H s = Inr s'
         \<and> foreground s' = foreground s \<and> background s' = background s)
   \<and> background (handleColorPick H foreColor color s) = background s
   \<and> foreground (handleColorPick H backColor color s) = foreground s"
proof -
  have 1: "foreground (exec H cmd v s) = foreground s \<and> background (exec H cmd v s) = background s"
    by (simp add: exec_def Let_def call_focus_def call_execCommand_def updateStateFromEditor_def)
  have 2: "foreground (handleInput H s) = foreground s \<and> background (handleInput H s) = background s"
    by (simp add: handleInput_def updateStateFromEditor_def)
  have 3: "\<exists>s'. handleSelection H s = Inr s'
         \<and> foreground s' = foreground s \<and> background s' = background s"
    using handleSelection_cases [of H s]
    by (auto simp: handleSelection_outside handleSelection_inside)
  have 4: "background (handleColorPick H foreColor color s) = background s"
    by (simp add: handleColorPick_def Let_def call_focus_def call_execCommand_def
          updateStateFromEditor_def)
  have 5: "foreground (handleColorPick H backColor color s) = foreground s"
    by (simp add: handleColorPick_def Let_def call_focus_def call_execCommand_def
          updateStateFromEditor_def)
  from 1 2 3 4 5 show ?thesis by blast
qed

text \<open>
  On the headless host, with custom colours \<open>#ff0000\<close> and \<open>#00ff00\<close>: a command, an
  input event and a selection change inside the surface keep both; each pick keeps the
  other component.
\<close>

theorem color_state_stable_witness:
  "foreground (exec headless bold None (edited page_in_heading True)) = lit ''#ff0000''
   \<and> background (exec headless bold None (edited page_in_heading True)) = lit ''#00ff00''
   \<and> foreground (handleInput headless (edited page_in_heading True)) = lit ''#ff0000''
   \<and> background (handleInput headless (edited page_in_heading True)) = lit ''#00ff00''
   \<and> (\<exists>s'. handleSelection headless (edited page_in_heading True) = Inr s'
         \<and> foreground s' = lit ''#ff0000'' \<and> background s' = lit ''#00ff00'')
   \<and> background (handleColorPick headless foreColor (lit ''#123456'')
         (edited page_in_heading True)) = lit ''#00ff00''
   \<and> foreground (handleColorPick headless backColor (lit ''#123456'')
         (edited page_in_heading True)) = lit ''#ff0000''"
proof -
  have f: "foreground (edited page_in_heading True) = lit ''#ff0000''"
    and b: "background (edited page_in_heading True) = lit ''#00ff00''"
    by (simp_all add: edited_def)
  from color_state_stable [of headless bold None "edited page_in_heading True"
      "lit ''#123456''"]
  show ?thesis unfolding f b .
qed

text \<open>
  C1, as the code has it. On a selection-change event with no surface mounted, no
  selection, or an anchor outside the surface, the handler replaces the active-command
  map by the empty one, so that every toggle command is inactive, and leaves everything
  else, the block type included, at its prior value.
\<close>

theorem selection_outside_clears_toggles:
  assumes "outside_surface H s"
  shows "handleSelection H s = Inr (s\<lparr>activeCommands := Map.empty\<rparr>)
    \<and> (\<exists>s'. handleSelection H s = Inr s'
          \<and> (\<forall>c. \<not> isActive s' c) \<and> blockType s' = blockType s)"
  using assms by (simp add: handleSelection_outside isActive_def)

text \<open>
  The caret outside a mounted surface, on the headless host.
\<close>

theorem selection_outside_clears_toggles_witness:
  "outside_surface headless (edited page_outside True)
   \<and> handleSelection headless (edited page_outside True)
       = Inr ((edited page_outside True)\<lparr>activeCommands := Map.empty\<rparr>)"
proof -
  have o: "outside_surface headless (edited page_outside True)"
    by (simp add: outside_surface_def headless_def edited_def page_outside_def
          page_in_heading_def)
  from selection_outside_clears_toggles [OF o] o show ?thesis by simp
qed

text \<open>
  C1 as stated fails: with the block type at \<open>"h1"\<close> from an earlier selection inside a
  heading, a selection-change event whose anchor lies outside the surface leaves the block
  type at \<open>"h1"\<close>, not at the paragraph tag of the default snapshot.
\<close>

theorem selection_outside_counterexample:
  "outside_surface headless (edited page_outside True)
   \<and> map_sum id blockType (handleSelection headless (edited page_outside True))
       = Inr (lit ''h1'')
   \<and> lit ''h1'' \<noteq> lit ''p''"
  by (simp add: outside_surface_def handleSelection_def headless_def edited_def
        page_outside_def page_in_heading_def lit_def)


text \<open>
  C6, as the code has it. With the selection inside the surface and the host reporting
  the block format \<open>reported\<close>: an empty report is stored as \<open>"p"\<close>; otherwise every
  \<open><\<close> and \<open>>\<close> is removed (wherever it stands) and the rest lowercased, and that
  value is stored, except that \<open>"body"\<close> is stored as \<open>"p"\<close>. The stored block type is
  never \<open>"body"\<close>.
\<close>

theorem blockType_normalised:
  assumes "mounted s" and "getSelection H (host s) = Some sel" and "anchorNode sel = Some n"
    and "contains H (host s) n"
    and "queryCommandValue H (lit ''formatBlock'') (host s) = Inr reported"
  shows "\<exists>s'. handleSelection H s = Inr s'
    \<and> blockType s' =
        (if reported = [] then lit ''p''
         else if toLowerCase H (remove_delimiters reported) = lit ''body'' then lit ''p''
         else toLowerCase H (remove_delimiters reported))
    \<and> blockType s' \<noteq> lit ''body''"
proof -
  have "lit ''p'' \<noteq> lit ''body''" by (simp add: lit_def)
  then show ?thesis
    using assms by (simp add: handleSelection_inside [OF assms(1-4)] Let_def)
qed

text \<open>
  The headless host reporting \<open>"<BODY>"\<close>: the stored block type is \<open>"p"\<close>.
\<close>

theorem blockType_normalised_witness:
  "mounted (edited page_in_body True)
   \<and> getSelection headless (host (edited page_in_body True)) = Some \<lparr>anchorNode = Some 1\<rparr>
   \<and> contains headless (host (edited page_in_body True)) 1
   \<and> queryCommandValue headless (lit ''formatBlock'') (host (edited page_in_body True))
       = Inr (lit ''<BODY>'')
   \<and> map_sum id blockType (handleSelection headless (edited page_in_body True))
       = Inr (lit ''p'')"
proof -
  let ?s = "edited page_in_body True"
  have 1: "mounted ?s" by (simp add: edited_def)
  have 2: "getSelection headless (host ?s) = Some \<lparr>anchorNode = Some 1\<rparr>"
    by (simp add: edited_def headless_def page_in_body_def page_in_heading_def)
  have 3: "anchorNode \<lparr>anchorNode = Some 1\<rparr> = Some 1" by simp
  have 4: "contains headless (host ?s) 1"
    by (simp add: edited_def headless_def page_in_body_def page_in_heading_def)
  have 5: "queryCommandValue headless (lit ''formatBlock'') (host ?s) = Inr (lit ''<BODY>'')"
    by (simp add: edited_def headless_def page_in_body_def page_in_heading_def)
  have 6: "toLowerCase headless (remove_delimiters (lit ''<BODY>'')) = lit ''body''"
    by (simp add: headless_def remove_delimiters_def isDelimiter_def ascii_lower_def lit_def)
  have 7: "lit ''<BODY>'' \<noteq> []" by (simp add: lit_def)
  from blockType_normalised [OF 1 2 3 4 5] obtain s'
    where "handleSelection headless ?s = Inr s'" and "blockType s' = lit ''p''"
    by (auto simp: 6 7)
  then have "map_sum id blockType (handleSelection headless ?s) = Inr (lit ''p'')"
    by simp
  with 1 2 4 5 show ?thesis by blast
qed

text \<open>
  C6 as stated fails on two reports. For the empty report the stored block type is
  \<open>"p"\<close>, where the stated normalisation gives the empty string; for \<open>"a<b"\<close> the
  stored block type is \<open>"ab"\<close>, the inner delimiter removed, where stripping the
  surrounding delimiters gives \<open>"a<b"\<close>.
\<close>

theorem blockType_counterexample:
  "map_sum id blockType (handleSelection headless (edited page_no_block True)) = Inr (lit ''p'')
   \<and> spec_blockType (toLowerCase headless) [] = []
   \<and> lit ''p'' \<noteq> []
   \<and> map_sum id blockType (handleSelection headless (edited page_odd_block True))
       = Inr (lit ''ab'')
   \<and> spec_blockType (toLowerCase headless) (lit ''a<b'') = lit ''a<b''
   \<and> lit ''ab'' \<noteq> lit ''a<b''"
proof -
  have i1: "mounted (edited page_no_block True)" by (simp add: edited_def)
  have i2: "getSelection headless (host (edited page_no_block True)) = Some \<lparr>anchorNode = Some 1\<rparr>"
    by (simp add: edited_def headless_def page_no_block_def page_in_heading_def)
  have i4: "contains headless (host (edited page_no_block True)) 1"
    by (simp add: edited_def headless_def page_no_block_def page_in_heading_def)
  have i5: "queryCommandValue headless (lit ''formatBlock'') (host (edited page_no_block True)) = Inr []"
    by (simp add: edited_def headless_def page_no_block_def page_in_heading_def)
  have a: "map_sum id blockType (handleSelection headless (edited page_no_block True)) = Inr (lit ''p'')"
    by (simp add: handleSelection_inside [OF i1 i2 _ i4] i5)
  have j1: "mounted (edited page_odd_block True)" by (simp add: edited_def)
  have j2: "getSelection headless (host (edited page_odd_block True)) = Some \<lparr>anchorNode = Some 1\<rparr>"
    by (simp add: edited_def headless_def page_odd_block_def page_in_heading_def)
  have j4: "contains headless (host (edited page_odd_block True)) 1"
    by (simp add: edited_def headless_def page_odd_block_def page_in_heading_def)
  have j5: "queryCommandValue headless (lit ''formatBlock'') (host (edited page_odd_block True))
      = Inr (lit ''a<b'')"
    by (simp add: edited_def headless_def page_odd_block_def page_in_heading_def)
  have j6: "toLowerCase headless (remove_delimiters (lit ''a<b'')) = lit ''ab''"
    by (simp add: headless_def remove_delimiters_def isDelimiter_def ascii_lower_def lit_def)
  have j7: "lit ''a<b'' \<noteq> []" "lit ''ab'' \<noteq> lit ''body''" by (simp_all add: lit_def)
  have b: "map_sum id blockType (handleSelection headless (edited page_odd_block True))
      = Inr (lit ''ab'')"
    by (simp add: handleSelection_inside [OF j1 j2 _ j4] j5 j6 j7)
  have c: "spec_blockType (toLowerCase headless) [] = []"
    by (simp add: spec_blockType_def strip_surrounding_def headless_def lit_def)
  have d: "spec_blockType (toLowerCase headless) (lit ''a<b'') = lit ''a<b''"
    by (simp add: spec_blockType_def strip_surrounding_def headless_def lit_def ascii_lower_def)
  have e: "lit ''p'' \<noteq> []" "lit ''ab'' \<noteq> lit ''a<b''" by (simp_all add: lit_def)
  from a b c d e show ?thesis by blast
qed

text \<open>
  C7. The selection handler always returns a state, whatever the host queries do: no
  exception leaves it. With the selection inside the surface, every toggle command of the
  toolbar is recorded with the answer of its own state query, and as inactive when that
  query throws, independently of the other queries; and when the block-format query
  throws, the block type is recorded as \<open>"p"\<close>.
\<close>

theorem query_failures_absorbed:
  "(\<exists>s'. handleSelection H s = Inr s')
   \<and> (mounted s \<and> getSelection H (host s) = Some sel \<and> anchorNode sel = Some n
        \<and> contains H (host s) n \<longrightarrow>
      (\<exists>s'. handleSelection H s = Inr s'
         \<and> (\<forall>btn \<in> set (inlineButtons @ listButtons @ alignmentButtons).
               activeCommands s' (command_name (command btn)) =
                 Some (case queryCommandState H (command_name (command btn)) (host s) of
                         Inl e \<Rightarrow> False | Inr b \<Rightarrow> b))
         \<and> (\<forall>e. queryCommandValue H (lit ''formatBlock'') (host s) = Inl e
               \<longrightarrow> blockType s' = lit ''p'')))"
proof -
  have 1: "\<exists>s'. handleSelection H s = Inr s'"
    using handleSelection_cases [of H s]
    by (auto simp: handleSelection_outside handleSelection_inside)
  have 2: "\<exists>s'. handleSelection H s = Inr s'
         \<and> (\<forall>btn \<in> set (inlineButtons @ listButtons @ alignmentButtons).
               activeCommands s' (command_name (command btn)) =
                 Some (case queryCommandState H (command_name (command btn)) (host s) of
                         Inl e \<Rightarrow> False | Inr b \<Rightarrow> b))
         \<and> (\<forall>e. queryCommandValue H (lit ''formatBlock'') (host s) = Inl e
               \<longrightarrow> blockType s' = lit ''p'')"
    if i: "mounted s" "getSelection H (host s) = Some sel" "anchorNode sel = Some n"
      "contains H (host s) n"
  proof -
    let ?r = "\<lambda>k. case queryCommandState H k (host s) of Inl e \<Rightarrow> False | Inr b \<Rightarrow> b"
    let ?L = "inlineButtons @ listButtons @ alignmentButtons"
    define M where "M = fold (\<lambda>btn m. m(command_name (command btn) \<mapsto>
        ?r (command_name (command btn)))) ?L Map.empty"
    define B where "B = (case queryCommandValue H (lit ''formatBlock'') (host s) of
        Inl e \<Rightarrow> lit ''p''
      | Inr queried \<Rightarrow>
          if queried \<noteq> [] then toLowerCase H (remove_delimiters queried) else lit ''p'')"
    have h: "handleSelection H s =
        Inr (s\<lparr>activeCommands := M, blockType := if B = lit ''body'' then lit ''p'' else B\<rparr>)"
      unfolding M_def B_def handleSelection_inside [OF i] Let_def ..
    have m: "M (command_name (command btn)) = Some (?r (command_name (command btn)))"
      if "btn \<in> set ?L" for btn
    proof -
      from that have mem: "command_name (command btn)
          \<in> (\<lambda>btn. command_name (command btn)) ` set ?L"
        by (rule imageI)
      show ?thesis
        unfolding M_def
        using fold_update_lookup [of "\<lambda>btn. command_name (command btn)" ?r ?L Map.empty
          "command_name (command btn)"]
        by (simp only: mem if_True)
    qed
    have b: "B = lit ''p''"
      if "queryCommandValue H (lit ''formatBlock'') (host s) = Inl e" for e
      using that by (simp add: B_def)
    show ?thesis
      unfolding h using m b by auto
  qed
  from 1 2 show ?thesis by blast
qed


text \<open>
  A host whose italic query and block query both throw: bold is still recorded as
  active, italic and underline as inactive, and the block type as \<open>"p"\<close>.
\<close>

theorem query_failures_absorbed_witness:
  "mounted (edited page_failing True)
   \<and> getSelection headless (host (edited page_failing True)) = Some \<lparr>anchorNode = Some 1\<rparr>
   \<and> contains headless (host (edited page_failing True)) 1
   \<and> queryCommandState headless (lit ''italic'') (host (edited page_failing True))
       = Inl HostError
   \<and> queryCommandValue headless (lit ''formatBlock'') (host (edited page_failing True))
       = Inl HostError
   \<and> (\<exists>s'. handleSelection headless (edited page_failing True) = Inr s'
         \<and> activeCommands s' (lit ''bold'') = Some True
         \<and> activeCommands s' (lit ''italic'') = Some False
         \<and> activeCommands s' (lit ''underline'') = Some False
         \<and> blockType s' = lit ''p'')"
proof -
  let ?s = "edited page_failing True"
  have 1: "mounted ?s" by (simp add: edited_def)
  have 2: "getSelection headless (host ?s) = Some \<lparr>anchorNode = Some 1\<rparr>"
    by (simp add: edited_def headless_def page_failing_def page_in_heading_def)
  have 3: "anchorNode \<lparr>anchorNode = Some 1\<rparr> = Some 1" by simp
  have 4: "contains headless (host ?s) 1"
    by (simp add: edited_def headless_def page_failing_def page_in_heading_def)
  have 5: "queryCommandValue headless (lit ''formatBlock'') (host ?s) = Inl HostError"
    by (simp add: edited_def headless_def page_failing_def page_in_heading_def)
  have qb: "queryCommandState headless (lit ''bold'') (host ?s) = Inr True"
    by (simp add: edited_def headless_def page_failing_def page_in_heading_def)
  have qi: "queryCommandState headless (lit ''italic'') (host ?s) = Inl HostError"
    by (simp add: edited_def headless_def page_failing_def page_in_heading_def lit_def)
  have qu: "queryCommandState headless (lit ''underline'') (host ?s) = Inr False"
    by (simp add: edited_def headless_def page_failing_def page_in_heading_def lit_def)
  have mem: "\<lparr>command = bold, btn_value = None\<rparr> \<in> set (inlineButtons @ listButtons @ alignmentButtons)"
    "\<lparr>command = italic, btn_value = None\<rparr> \<in> set (inlineButtons @ listButtons @ alignmentButtons)"
    "\<lparr>command = underline, btn_value = None\<rparr> \<in> set (inlineButtons @ listButtons @ alignmentButtons)"
    by (simp_all add: inlineButtons_def)
  from query_failures_absorbed [of headless ?s "\<lparr>anchorNode = Some 1\<rparr>" 1] 1 2 3 4
  obtain s' where r: "handleSelection headless ?s = Inr s'"
    and a: "\<forall>btn \<in> set (inlineButtons @ listButtons @ alignmentButtons).
               activeCommands s' (command_name (command btn)) =
                 Some (case queryCommandState headless (command_name (command btn)) (host ?s) of
                         Inl e \<Rightarrow> False | Inr b \<Rightarrow> b)"
    and b: "\<forall>e. queryCommandValue headless (lit ''formatBlock'') (host ?s) = Inl e
               \<longrightarrow> blockType s' = lit ''p''"
    by blast
  from a mem(1) qb have "activeCommands s' (lit ''bold'') = Some True" by force
  moreover from a mem(2) qi have "activeCommands s' (lit ''italic'') = Some False" by force
  moreover from a mem(3) qu have "activeCommands s' (lit ''underline'') = Some False" by force
  moreover from b 5 have "blockType s' = lit ''p''" by blast
  ultimately show ?thesis using r 1 2 4 5 qi by blast
qed

text \<open>
  C2. For every state with the surface mounted, on a host that reads the starter markup
  back as assigned and whose rendered text depends on the assigned markup only,
  \<open>reset\<close> gives the fixed result: the surface content and the markup snapshot are the
  starter markup, the selection snapshot is the default one, and the colours are
  \<open>#1f2933\<close> and \<open>#ffffff\<close>. A second \<open>reset\<close> in a row gives the same markup,
  plain text, selection snapshot and colours as the first.
\<close>

theorem reset_fixed_idempotent:
  assumes "mounted s" and "starter_round_trip H" and "content_replaced H"
  shows "html (reset H s) = DEFAULT_MARKUP
    \<and> get_innerHTML H (host (reset H s)) = DEFAULT_MARKUP
    \<and> activeCommands (reset H s) = Map.empty
    \<and> blockType (reset H s) = lit ''p''
    \<and> foreground (reset H s) = lit ''#1f2933''
    \<and> background (reset H s) = lit ''#ffffff''
    \<and> html (reset H (reset H s)) = html (reset H s)
    \<and> plain (reset H (reset H s)) = plain (reset H s)
    \<and> activeCommands (reset H (reset H s)) = activeCommands (reset H s)
    \<and> blockType (reset H (reset H s)) = blockType (reset H s)
    \<and> foreground (reset H (reset H s)) = foreground (reset H s)
    \<and> background (reset H (reset H s)) = background (reset H s)"
proof -
  have rt: "get_innerHTML H (set_innerHTML H DEFAULT_MARKUP h) = DEFAULT_MARKUP" for h
    using assms(2) by (simp add: starter_round_trip_def)
  have cr: "get_innerText H (set_innerHTML H DEFAULT_MARKUP h)
      = get_innerText H (set_innerHTML H DEFAULT_MARKUP h')" for h h'
    using assms(3) unfolding content_replaced_def by blast
  have r: "reset H x =
      x\<lparr>html := get_innerHTML H (set_innerHTML H DEFAULT_MARKUP (host x)),
        plain := get_innerText H (set_innerHTML H DEFAULT_MARKUP (host x)),
        host := set_innerHTML H DEFAULT_MARKUP (host x),
        invoked := invoked x @ [SetInnerHTML DEFAULT_MARKUP],
        foreground := lit ''#1f2933'',
        background := lit ''#ffffff'',
        activeCommands := Map.empty,
        blockType := lit ''p''\<rparr>" if "mounted x" for x
    using that by (simp add: reset_def assign_innerHTML_def updateStateFromEditor_def Let_def)
  have m': "mounted (reset H s)"
    using assms(1) by (simp add: r)
  have p: "plain (reset H (reset H s)) = plain (reset H s)"
    unfolding r [OF m'] unfolding r [OF assms(1)]
    using cr [of "set_innerHTML H DEFAULT_MARKUP (host s)" "host s"] by simp
  show ?thesis
    using p by (simp add: r [OF m'] rt) (simp add: r [OF assms(1)] rt)
qed

text \<open>
  The headless host keeps the assigned markup as it is and renders text from it alone;
  \<open>reset\<close> after edits, with custom colours and a heading selected.
\<close>

theorem reset_fixed_idempotent_witness:
  "mounted (edited page_in_heading True)
   \<and> starter_round_trip headless
   \<and> content_replaced headless
   \<and> html (reset headless (edited page_in_heading True)) = DEFAULT_MARKUP
   \<and> blockType (reset headless (edited page_in_heading True)) = lit ''p''
   \<and> foreground (reset headless (edited page_in_heading True)) = lit ''#1f2933''
   \<and> background (reset headless (edited page_in_heading True)) = lit ''#ffffff''
   \<and> plain (reset headless (reset headless (edited page_in_heading True)))
       = plain (reset headless (edited page_in_heading True))"
proof -
  have 1: "mounted (edited page_in_heading True)"
    by (simp add: edited_def)
  have 2: "starter_round_trip headless"
    by (simp add: starter_round_trip_def headless_def)
  have 3: "content_replaced headless"
    by (simp add: content_replaced_def headless_def)
  from reset_fixed_idempotent [OF 1 2 3] 1 2 3 show ?thesis by blast
qed

end
